theory Spec2Isabelle
  imports Main
begin

section \<open>Text and values\<close>

text \<open>
  Python text is modelled as \<^typ>\<open>string\<close>: a sequence of characters with code points
  0 to 255. Captured streams are \<^typ>\<open>string option\<close>, with \<open>None\<close> for Python's
  \<open>None\<close> (stream not captured).
\<close>

abbreviation (input) SPACE :: char where "SPACE \<equiv> CHR 0x20"
abbreviation (input) COLON :: char where "COLON \<equiv> CHR 0x3A"
abbreviation (input) QUOTE :: char where "QUOTE \<equiv> CHR 0x27"
abbreviation (input) TAB :: char where "TAB \<equiv> CHR 0x09"
abbreviation (input) LF :: char where "LF \<equiv> CHR 0x0A"
abbreviation (input) CR :: char where "CR \<equiv> CHR 0x0D"

text \<open>The command, \<open>popenargs[0]\<close>: one string, or a sequence of argument strings.\<close>

datatype cmd = CmdStr string | CmdList "string list"

text \<open>A timeout is \<open>None\<close> or a duration; the runner only hands it on.\<close>

type_synonym timeout = "int option"

section \<open>The ZFS error classes\<close>

datatype zfs_error =
    DatasetNotFoundError
  | DatasetExistsError
  | DatasetBusyError
  | HoldTagNotFoundError
  | HoldTagExistsError

definition ENOENT :: int where "ENOENT = 2"
definition EEXIST :: int where "EEXIST = 17"
definition EBUSY :: int where "EBUSY = 16"

fun errno :: "zfs_error \<Rightarrow> int" where
  "errno DatasetNotFoundError = ENOENT"
| "errno DatasetExistsError = EEXIST"
| "errno DatasetBusyError = EBUSY"
| "errno HoldTagNotFoundError = ENOENT"
| "errno HoldTagExistsError = EEXIST"

fun strerror :: "zfs_error \<Rightarrow> string" where
  "strerror DatasetNotFoundError = ''dataset does not exist''"
| "strerror DatasetExistsError = ''dataset already exists''"
| "strerror DatasetBusyError = ''dataset is busy''"
| "strerror HoldTagNotFoundError = ''no such tag on this dataset''"
| "strerror HoldTagExistsError = ''tag already exists on this dataset''"

text \<open>
  Everything the module raises or lets through. \<open>ZFSError error dataset\<close> is an instance
  of the class \<open>error\<close> constructed with \<open>dataset\<close>; its \<open>errno\<close> and \<open>strerror\<close>
  are those of the class.
\<close>

datatype exn =
    ZFSError zfs_error string
  | CalledProcessError int cmd "string option" "string option"
  | TimeoutExpired cmd timeout "string option" "string option"
  | ValueError string
  | TypeError string
  | IndexError
  | AttributeError
  | SocketTimeout
  | OtherError string

section \<open>The pattern of \<open>check_returncode\<close>\<close>

text \<open>
  \<open>re.search(r"^cannot ([^ ]+(?: [^ ]+)*?) ([^ ]+): (.+)$", self.stderr)\<close>, with no flags.
  Without \<open>re.MULTILINE\<close> the anchor \<open>^\<close> holds at the start of the text only, so the
  search can succeed at offset 0 only; \<open>$\<close> holds at the end of the text and just before
  a line feed that is the last character; \<open>.\<close> is every character but the line feed;
  \<open>[^ ]\<close> is every character but the space (the line feed included).
\<close>

definition nonspace :: "char \<Rightarrow> bool" where
  "nonspace c = (c \<noteq> SPACE)"

definition notnl :: "char \<Rightarrow> bool" where
  "notnl c = (c \<noteq> LF)"

text \<open>
  \<open>(.+)$\<close> at \<open>r\<close>: the greedy \<open>.+\<close> takes the characters up to the first line feed, at
  least one, and \<open>$\<close> must hold right there (a shorter \<open>.+\<close> is followed by a character
  that is not a line feed, where \<open>$\<close> fails).
\<close>

definition match_reason :: "string \<Rightarrow> string option" where
  "match_reason r =
     (let reason = takeWhile notnl r; after = dropWhile notnl r
      in if reason \<noteq> [] \<and> (after = [] \<or> after = [LF]) then Some reason else None)"

text \<open>
  \<open> ([^ ]+): (.+)$\<close> after the space, at \<open>s\<close>: \<open>[^ ]+\<close> runs to the next space, and
  gives characters back until \<open>: \<close> follows. The space of \<open>: \<close> is the first space from
  \<open>s\<close> on, so the colon is the last character of the run and the group is the run
  without it; the group is not empty.
\<close>

definition match_object_reason :: "string \<Rightarrow> (string \<times> string) option" where
  "match_object_reason s =
     (let tok = takeWhile nonspace s; rest = dropWhile nonspace s
      in if 2 \<le> length tok \<and> last tok = COLON \<and> rest \<noteq> []
         then (case match_reason (tl rest) of
                 Some reason \<Rightarrow> Some (butlast tok, reason)
               | None \<Rightarrow> None)
         else None)"

text \<open>
  The lazy repetition \<open>(?: [^ ]+)*?\<close>: with \<open>act\<close> matched by the first group so far and
  \<open>s\<close> left, the rest of the pattern is tried first; only when it fails does the group
  take one more space and run of non-spaces, and the rest is tried again.
\<close>

function scan_action :: "string \<Rightarrow> string \<Rightarrow> (string \<times> string \<times> string) option" where
  "scan_action act [] = None"
| "scan_action act (c # s) =
     (if c \<noteq> SPACE then None
      else case match_object_reason s of
             Some (dataset, reason) \<Rightarrow> Some (act, dataset, reason)
           | None \<Rightarrow>
               if takeWhile nonspace s = [] then None
               else scan_action (act @ SPACE # takeWhile nonspace s) (dropWhile nonspace s))"
  by pat_completeness auto
termination
  by (relation "measure (\<lambda>(act, s). length s)")
     (auto simp: less_Suc_eq_le length_dropWhile_le)

text \<open>The groups of the match, or \<open>None\<close> when \<open>re.search\<close> returns \<open>None\<close>.\<close>

definition re_search :: "string \<Rightarrow> (string \<times> string \<times> string) option" where
  "re_search text =
     (if take 7 text = ''cannot '' \<and> takeWhile nonspace (drop 7 text) \<noteq> []
      then scan_action (takeWhile nonspace (drop 7 text)) (dropWhile nonspace (drop 7 text))
      else None)"

section \<open>\<open>CompletedProcess.check_returncode\<close>\<close>

record completed_process =
  args :: cmd
  returncode :: int
  stdout :: "string option"
  stderr :: "string option"

definition known_errors :: "zfs_error list" where
  "known_errors = [DatasetNotFoundError, DatasetExistsError, DatasetBusyError,
                   HoldTagNotFoundError, HoldTagExistsError]"

text \<open>
  Lines 50 and 51 on a string that is not empty: \<open>dataset[1:-1]\<close> drops the first and
  the last character, which are one and the same when the length is 1.
\<close>

definition unquote :: "string \<Rightarrow> string" where
  "unquote dataset =
     (if hd dataset = QUOTE \<and> last dataset = QUOTE then butlast (tl dataset) else dataset)"

text \<open>
  Lines 45 to 58 on an error text: \<open>Some e\<close> when \<open>e\<close> is raised, \<open>None\<close> when control
  reaches the call of the superclass. \<open>dataset[0]\<close> on an empty string raises
  \<open>IndexError\<close>. The loop over the five classes raises the first whose \<open>strerror\<close>
  is the reason.
\<close>

definition classify :: "int \<Rightarrow> string \<Rightarrow> exn option" where
  "classify rc err =
     (if rc = 1 then
        (case re_search err of
           None \<Rightarrow> None
         | Some (action, dataset, reason) \<Rightarrow>
             (case dataset of
                [] \<Rightarrow> Some IndexError
              | _ # _ \<Rightarrow>
                  (case find (\<lambda>error. reason = strerror error) known_errors of
                     Some error \<Rightarrow> Some (ZFSError error (unquote dataset))
                   | None \<Rightarrow> None)))
      else None)"

text \<open>The superclass method: any non-zero exit raises \<open>CalledProcessError\<close>.\<close>

definition super_check_returncode :: "completed_process \<Rightarrow> exn + unit" where
  "super_check_returncode self =
     (if returncode self \<noteq> 0
      then Inl (CalledProcessError (returncode self) (args self) (stdout self) (stderr self))
      else Inr ())"

text \<open>\<open>re.search\<close> on \<open>None\<close> raises \<open>TypeError\<close>.\<close>

definition check_returncode :: "completed_process \<Rightarrow> exn + unit" where
  "check_returncode self =
     (if returncode self = 1 then
        (case stderr self of
           None \<Rightarrow> Inl (TypeError ''expected string or bytes-like object'')
         | Some err \<Rightarrow>
             (case classify (returncode self) err of
                Some e \<Rightarrow> Inl e
              | None \<Rightarrow> super_check_returncode self))
      else super_check_returncode self)"

section \<open>The output decoder\<close>

text \<open>
  \<open>str.splitlines()\<close>: the text is cut at every line boundary, \<open>\r\n\<close> counting as one;
  the boundaries are not kept, and a boundary at the very end opens no further line.
  The boundaries among the characters of the model are line feed, carriage return,
  vertical tab, form feed, the file, group and record separators, and next line (0x85).
\<close>

definition is_linebreak :: "char \<Rightarrow> bool" where
  "is_linebreak c =
     (c \<in> set [LF, CR, CHR 0x0B, CHR 0x0C, CHR 0x1C, CHR 0x1D, CHR 0x1E, CHR 0x85])"

text \<open>The text after the boundary that \<open>s\<close> starts with.\<close>

fun skip_linebreak :: "string \<Rightarrow> string" where
  "skip_linebreak [] = []"
| "skip_linebreak [c] = []"
| "skip_linebreak (c # d # s) = (if c = CR \<and> d = LF then s else d # s)"

function splitlines :: "string \<Rightarrow> string list" where
  "splitlines [] = []"
| "splitlines (c # cs) =
     takeWhile (\<lambda>x. \<not> is_linebreak x) (c # cs)
       # splitlines (skip_linebreak (dropWhile (\<lambda>x. \<not> is_linebreak x) (c # cs)))"
  by pat_completeness auto
termination
proof (relation "measure length")
  fix c :: char and cs :: string
  let ?r = "dropWhile (\<lambda>x. \<not> is_linebreak x) (c # cs)"
  have le: "length ?r \<le> length (c # cs)" by (rule length_dropWhile_le)
  have skip: "s \<noteq> [] \<Longrightarrow> length (skip_linebreak s) < length s" for s
    by (induction s rule: skip_linebreak.induct) auto
  have "length (skip_linebreak ?r) < length (c # cs)"
  proof (cases "?r = []")
    case True
    then show ?thesis by simp
  next
    case False
    from skip[OF this] le show ?thesis by linarith
  qed
  then show "(skip_linebreak ?r, c # cs) \<in> measure length" by simp
qed simp

text \<open>
  \<open>line.split('\t')\<close>: the text is cut at every tab; neighbouring tabs give an empty
  field, and the empty text gives one empty field.
\<close>

primrec split_tab :: "string \<Rightarrow> string list" where
  "split_tab [] = [[]]"
| "split_tab (c # cs) =
     (if c = TAB then [] # split_tab cs
      else (case split_tab cs of
              [] \<Rightarrow> [[c]]
            | f # fs \<Rightarrow> (c # f) # fs))"

text \<open>Line 84: \<open>None if out is None else [line.split('\t') for line in out.splitlines()]\<close>.\<close>

definition decode :: "string option \<Rightarrow> string list list option" where
  "decode out = (case out of None \<Rightarrow> None | Some text \<Rightarrow> Some (map split_tab (splitlines text)))"

text \<open>\<open>sep.join(xs)\<close>.\<close>

fun join :: "'a list \<Rightarrow> 'a list list \<Rightarrow> 'a list" where
  "join sep [] = []"
| "join sep [x] = x"
| "join sep (x # y # ys) = x @ sep @ join sep (y # ys)"

text \<open>
  The encoding the specification pairs with the decoder, in its words: fields joined
  with tabs, records joined with newlines. It is not part of the module.
\<close>

definition encode_records :: "string list list \<Rightarrow> string" where
  "encode_records records = join [LF] (map (join [TAB]) records)"

section \<open>Keyword arguments and collaborators\<close>

text \<open>
  The values a keyword argument takes in the module: \<open>None\<close>, a flag, a number
  (\<open>PIPE\<close> is \<open>-1\<close>), text, bytes, or a readable file object holding the content that is
  left to read.
\<close>

datatype pyval = PNone | PBool bool | PInt int | PStr string | PBytes string | PFile string

fun truthy :: "pyval \<Rightarrow> bool" where
  "truthy PNone = False"
| "truthy (PBool b) = b"
| "truthy (PInt i) = (i \<noteq> 0)"
| "truthy (PStr s) = (s \<noteq> [])"
| "truthy (PBytes s) = (s \<noteq> [])"
| "truthy (PFile content) = True"

type_synonym kwargs = "string \<rightharpoonup> pyval"

text \<open>\<open>kwargs.get(key, dflt)\<close>.\<close>

definition get :: "kwargs \<Rightarrow> string \<Rightarrow> pyval \<Rightarrow> pyval" where
  "get kwargs key dflt = (case kwargs key of None \<Rightarrow> dflt | Some v \<Rightarrow> v)"

definition PIPE :: pyval where
  "PIPE = PInt (- 1)"

text \<open>
  What the module does to the outside, in order. \<open>Communicate input timeout\<close> is a call
  of \<open>process.communicate\<close>; \<open>Write chunk\<close> is a write to the remote input handle and
  \<open>Close\<close> its \<open>close()\<close>.
\<close>

datatype event =
    Popen cmd "pyval list" kwargs
  | Communicate "string option" timeout
  | Kill
  | Wait
  | Poll
  | ExecCommand string "pyval list" timeout
  | Write string
  | Close
  | RecvExitStatus
  | ReadStdout
  | ReadStderr

text \<open>A computation: the events it caused, and the exception it raised or its value.\<close>

type_synonym 'a eff = "event list \<times> (exn + 'a)"

definition bind_eff :: "'a eff \<Rightarrow> ('a \<Rightarrow> 'b eff) \<Rightarrow> 'b eff" where
  "bind_eff m f =
     (case m of
        (tr, Inl e) \<Rightarrow> (tr, Inl e)
      | (tr, Inr x) \<Rightarrow> (case f x of (tr', r) \<Rightarrow> (tr @ tr', r)))"

text \<open>
  A spawned child, as the runner sees it: what \<open>communicate(input, timeout)\<close> does
  (returns the two captured streams, raises \<open>TimeoutExpired\<close>, or raises something
  else), what \<open>communicate()\<close> after \<open>kill()\<close> returns, and the exit status.
\<close>

datatype comm = Returned "string option" "string option" | Expired | Interrupted exn

record process =
  communicate :: "string option \<Rightarrow> timeout \<Rightarrow> comm"
  drain :: "string option \<times> string option"
  poll :: int

text \<open>\<open>sp.Popen(*popenargs, **kwargs)\<close>: raises, or gives the child.\<close>

type_synonym popen = "cmd \<Rightarrow> pyval list \<Rightarrow> kwargs \<Rightarrow> exn + process"

text \<open>
  The three handles \<open>exec_command\<close> returns, as the runner uses them; each operation
  depends on the chunks written to the input handle so far, and may raise.
\<close>

record remote_handles =
  stdin_write :: "string list \<Rightarrow> string \<Rightarrow> exn option"
  recv_exit_status :: "string list \<Rightarrow> exn + int"
  stdout_lines :: "string list \<Rightarrow> exn + string list"
  stderr_lines :: "string list \<Rightarrow> exn + string list"

record ssh_client =
  exec_command :: "string \<Rightarrow> pyval list \<Rightarrow> timeout \<Rightarrow> exn + remote_handles"

section \<open>\<open>run\<close>\<close>

text \<open>
  The model takes the command \<open>popenargs[0]\<close> as \<open>cmd\<close> and the further positional
  arguments \<open>popenargs[1:]\<close> as \<open>rest\<close>; \<open>kwargs\<close> holds the keywords that the
  signature of \<open>run\<close> does not name (\<open>timeout\<close>, \<open>check\<close> and \<open>ssh\<close> are its own
  parameters).
\<close>

text \<open>
  Lines 91 to 104, the local backend. The child is created from \<open>popenargs\<close> and all of
  \<open>kwargs\<close>; \<open>communicate\<close> is called with the timeout alone, so its input is \<open>None\<close>.
\<close>

definition run_local ::
  "popen \<Rightarrow> timeout \<Rightarrow> pyval \<Rightarrow> cmd \<Rightarrow> pyval list \<Rightarrow> kwargs \<Rightarrow> completed_process eff" where
  "run_local popen timeout check cmd rest kwargs =
     (case popen cmd rest kwargs of
        Inl e \<Rightarrow> ([Popen cmd rest kwargs], Inl e)
      | Inr process \<Rightarrow>
          (case communicate process None timeout of
             Expired \<Rightarrow>
               ([Popen cmd rest kwargs, Communicate None timeout, Kill, Communicate None None],
                Inl (TimeoutExpired cmd timeout (fst (drain process)) (snd (drain process))))
           | Interrupted e \<Rightarrow>
               ([Popen cmd rest kwargs, Communicate None timeout, Kill, Wait], Inl e)
           | Returned out err \<Rightarrow>
               ([Popen cmd rest kwargs, Communicate None timeout, Poll],
                if truthy check \<and> poll process \<noteq> 0
                then Inl (CalledProcessError (poll process) cmd out err)
                else Inr \<lparr>args = cmd, returncode = poll process, stdout = out, stderr = err\<rparr>)))"

text \<open>
  \<open>shutil.copyfileobj(fsrc, fdst, 128*1024)\<close>: reads of at most \<open>length\<close> characters
  until a read gives nothing, each written to \<open>fdst\<close>. A source with no \<open>read\<close> raises
  \<open>AttributeError\<close>.
\<close>

definition chunk_size :: nat where
  "chunk_size = 128 * 1024"

function chunks :: "nat \<Rightarrow> string \<Rightarrow> string list" where
  "chunks n s = (if n = 0 \<or> s = [] then [] else take n s # chunks n (drop n s))"
  by pat_completeness auto
termination
  by (relation "measure (\<lambda>(n, s). length s)") auto

declare chunks.simps [simp del]

fun write_chunks :: "remote_handles \<Rightarrow> string list \<Rightarrow> string list \<Rightarrow> string list eff" where
  "write_chunks r written [] = ([], Inr written)"
| "write_chunks r written (b # bs) =
     (case stdin_write r written b of
        Some e \<Rightarrow> ([Write b], Inl e)
      | None \<Rightarrow> bind_eff ([Write b], Inr (written @ [b])) (\<lambda>written'. write_chunks r written' bs))"

definition copyfileobj :: "pyval \<Rightarrow> remote_handles \<Rightarrow> string list eff" where
  "copyfileobj fsrc r =
     (case fsrc of
        PFile content \<Rightarrow> write_chunks r [] (chunks chunk_size content)
      | _ \<Rightarrow> ([], Inl AttributeError))"

text \<open>
  Lines 106 to 120, the remote backend. The body of the \<open>try\<close> runs until an operation
  raises; \<open>socket.timeout\<close> becomes \<open>TimeoutExpired\<close> with no output, anything else goes
  through.
\<close>

definition run_remote ::
  "ssh_client \<Rightarrow> timeout \<Rightarrow> pyval \<Rightarrow> cmd \<Rightarrow> pyval list \<Rightarrow> kwargs \<Rightarrow> completed_process eff" where
  "run_remote ssh timeout check cmd rest kwargs =
     (let args = (case cmd of CmdStr s \<Rightarrow> s | CmdList xs \<Rightarrow> join '' '' xs);
          body =
            bind_eff ([ExecCommand args rest timeout], exec_command ssh args rest timeout) (\<lambda>r.
            bind_eff (if truthy (get kwargs ''stdin'' PNone)
                      then copyfileobj (get kwargs ''stdin'' PNone) r
                      else ([], Inr [])) (\<lambda>written.
            bind_eff ([Close, RecvExitStatus], recv_exit_status r written) (\<lambda>retcode.
            bind_eff ([ReadStdout], stdout_lines r written) (\<lambda>out.
            bind_eff ([ReadStderr], stderr_lines r written) (\<lambda>err.
              ([], Inr (retcode, concat out, concat err)))))))
      in case body of
           (tr, Inl e) \<Rightarrow>
             (tr, Inl (if e = SocketTimeout then TimeoutExpired cmd timeout None None else e))
         | (tr, Inr (retcode, out, err)) \<Rightarrow>
             (tr, if truthy check \<and> retcode \<noteq> 0
                  then Inl (CalledProcessError retcode cmd (Some out) (Some err))
                  else Inr \<lparr>args = cmd, returncode = retcode,
                            stdout = Some out, stderr = Some err\<rparr>))"

text \<open>Line 90: the backend is chosen by \<open>ssh is None\<close>.\<close>

definition run ::
  "popen \<Rightarrow> ssh_client option \<Rightarrow> timeout \<Rightarrow> pyval \<Rightarrow> cmd \<Rightarrow> pyval list \<Rightarrow> kwargs
     \<Rightarrow> completed_process eff" where
  "run popen ssh timeout check cmd rest kwargs =
     (case ssh of
        None \<Rightarrow> run_local popen timeout check cmd rest kwargs
      | Some client \<Rightarrow> run_remote client timeout check cmd rest kwargs)"

section \<open>\<open>check_output\<close>\<close>

text \<open>Lines 74 to 77.\<close>

definition normalize_input :: "kwargs \<Rightarrow> kwargs" where
  "normalize_input kwargs =
     (if kwargs ''input'' = Some PNone
      then kwargs(''input'' \<mapsto>
             (if truthy (get kwargs ''universal_newlines'' (PBool False))
              then PStr [] else PBytes []))
      else kwargs)"

text \<open>
  The call of line 79 binds the keywords of \<open>kwargs\<close> to the parameters of \<open>run\<close>:
  \<open>check\<close> is a parameter of \<open>run\<close>, every other keyword lands in the \<open>kwargs\<close> of
  \<open>run\<close>, next to the three that line 79 fixes. A keyword given twice (\<open>stderr\<close>) is a
  \<open>TypeError\<close> of the call.
\<close>

definition check_arg :: "kwargs \<Rightarrow> pyval" where
  "check_arg kwargs = get kwargs ''check'' (PBool False)"

definition run_kwargs :: "kwargs \<Rightarrow> kwargs" where
  "run_kwargs kwargs =
     (kwargs(''check'' := None))
       (''stdout'' \<mapsto> PIPE, ''stderr'' \<mapsto> PIPE, ''universal_newlines'' \<mapsto> PBool True)"

definition check_output ::
  "popen \<Rightarrow> ssh_client option \<Rightarrow> timeout \<Rightarrow> cmd \<Rightarrow> pyval list \<Rightarrow> kwargs
     \<Rightarrow> string list list option eff" where
  "check_output popen ssh timeout cmd rest kwargs =
     (if ''stdout'' \<in> dom kwargs
      then ([], Inl (ValueError ''stdout argument not allowed, it will be overridden.''))
      else if ''universal_newlines'' \<in> dom kwargs
      then ([], Inl (ValueError
                       ''universal_newlines argument not allowed, it will be overridden.''))
      else if ''stderr'' \<in> dom (normalize_input kwargs)
      then ([], Inl (TypeError (''run() got multiple values for keyword argument ''
                            @ [QUOTE] @ ''stderr'' @ [QUOTE])))
      else
        bind_eff (run popen ssh timeout (check_arg (normalize_input kwargs)) cmd rest
                    (run_kwargs (normalize_input kwargs))) (\<lambda>ret.
          case check_returncode ret of
            Inl e \<Rightarrow> ([], Inl e)
          | Inr u \<Rightarrow> ([], Inr (decode (stdout ret)))))"

section \<open>Collaborators for the examples\<close>

text \<open>
  Concrete collaborators, on which the theorems below are evaluated. They stand for
  the world outside the module and are no part of it.
\<close>

text \<open>
  A child that exits with status 1 after writing the message of a busy dataset to its
  error stream, as \<open>zfs destroy\<close> does.
\<close>

definition busy_child :: process where
  "busy_child =
     \<lparr>communicate = (\<lambda>input timeout.
        Returned (Some []) (Some (''cannot destroy 'tank/data': dataset is busy'' @ [LF]))),
      drain = (None, None),
      poll = 1\<rparr>"

text \<open>A child that copies the input it is given to its output, as \<open>cat\<close> does.\<close>

definition cat_child :: process where
  "cat_child =
     \<lparr>communicate = (\<lambda>input timeout.
        Returned (Some (case input of None \<Rightarrow> [] | Some s \<Rightarrow> s)) (Some [])),
      drain = (None, None),
      poll = 0\<rparr>"

text \<open>A constructor that takes every keyword, in front of a given child.\<close>

definition any_popen :: "process \<Rightarrow> popen" where
  "any_popen child cmd rest kwargs = Inr child"

text \<open>
  The constructor of the standard library has no parameter \<open>input\<close>: a call with that
  keyword raises \<open>TypeError\<close> before any child exists.
\<close>

definition std_popen :: "process \<Rightarrow> popen" where
  "std_popen child cmd rest kwargs =
     (if ''input'' \<in> dom kwargs
      then Inl (TypeError (''Popen.__init__() got an unexpected keyword argument ''
                       @ [QUOTE] @ ''input'' @ [QUOTE]))
      else Inr child)"

text \<open>
  A session whose remote command exits with status 0 and gives back, as its output, the
  chunks written to its input.
\<close>

definition echo_remote :: remote_handles where
  "echo_remote =
     \<lparr>stdin_write = (\<lambda>written chunk. None),
      recv_exit_status = (\<lambda>written. Inr 0),
      stdout_lines = (\<lambda>written. Inr written),
      stderr_lines = (\<lambda>written. Inr [])\<rparr>"

definition echo_ssh :: ssh_client where
  "echo_ssh = \<lparr>exec_command = (\<lambda>args rest timeout. Inr echo_remote)\<rparr>"

section \<open>Properties of the pattern\<close>

lemma takeWhile_notin: "x \<notin> set xs \<Longrightarrow> takeWhile (\<lambda>c. c \<noteq> x) (xs @ x # ys) = xs"
  by (induction xs) auto

lemma dropWhile_notin: "x \<notin> set xs \<Longrightarrow> dropWhile (\<lambda>c. c \<noteq> x) (xs @ x # ys) = x # ys"
  by (induction xs) auto

lemma takeWhile_all: "x \<notin> set xs \<Longrightarrow> takeWhile (\<lambda>c. c \<noteq> x) xs = xs"
  by (induction xs) auto

lemma dropWhile_all: "x \<notin> set xs \<Longrightarrow> dropWhile (\<lambda>c. c \<noteq> x) xs = []"
  by (induction xs) auto

lemma takeWhile_notin_set: "x \<notin> set (takeWhile (\<lambda>c. c \<noteq> x) xs)"
  by (auto dest: set_takeWhileD)

lemma dropWhile_hd: "dropWhile (\<lambda>c. c \<noteq> x) xs \<noteq> [] \<Longrightarrow> hd (dropWhile (\<lambda>c. c \<noteq> x) xs) = x"
  by (drule hd_dropWhile) simp

lemma match_reason_Some:
  assumes "match_reason r = Some x"
  shows "x \<noteq> [] \<and> LF \<notin> set x \<and> (r = x \<or> r = x @ [LF])"
proof -
  from assms have x: "x = takeWhile notnl r" and ne: "x \<noteq> []"
    and after: "dropWhile notnl r = [] \<or> dropWhile notnl r = [LF]"
    by (auto simp: match_reason_def Let_def split: if_splits)
  have nl: "LF \<notin> set x" unfolding x notnl_def by (rule takeWhile_notin_set)
  have r: "r = x @ dropWhile notnl r" unfolding x by simp
  from after show ?thesis
  proof
    assume "dropWhile notnl r = []"
    with r have "r = x" by simp
    with ne nl show ?thesis by simp
  next
    assume "dropWhile notnl r = [LF]"
    with r have "r = x @ [LF]" by simp
    with ne nl show ?thesis by simp
  qed
qed

lemma match_reason_intro:
  assumes "x \<noteq> []" "LF \<notin> set x" "tail = [] \<or> tail = [LF]"
  shows "match_reason (x @ tail) = Some x"
  using assms(3)
proof
  assume t: "tail = []"
  have tw: "takeWhile notnl x = x" and dw: "dropWhile notnl x = []"
    using assms(2) by (auto simp: notnl_def)
  show ?thesis unfolding match_reason_def Let_def t append_Nil2 tw dw
    using assms(1) by simp
next
  assume t: "tail = [LF]"
  have tw: "takeWhile notnl (x @ [LF]) = x" and dw: "dropWhile notnl (x @ [LF]) = [LF]"
    unfolding notnl_def using assms(2) by (rule takeWhile_notin, rule dropWhile_notin)
  show ?thesis unfolding match_reason_def Let_def t tw dw
    using assms(1) by simp
qed

lemma match_object_reason_Some:
  assumes "match_object_reason s = Some (d, r)"
  shows "d \<noteq> [] \<and> SPACE \<notin> set d \<and> r \<noteq> [] \<and> LF \<notin> set r \<and>
         (\<exists>tail. (tail = [] \<or> tail = [LF]) \<and> s = d @ '': '' @ r @ tail)"
proof -
  define tok where "tok = takeWhile nonspace s"
  define rest where "rest = dropWhile nonspace s"
  from assms have len: "2 \<le> length tok" and col: "last tok = COLON" and rest: "rest \<noteq> []"
    and mr: "match_reason (tl rest) = Some r" and d: "d = butlast tok"
    by (auto simp: match_object_reason_def Let_def tok_def rest_def split: if_splits option.splits)
  from len have tokne: "tok \<noteq> []" by auto
  have tok: "tok = d @ [COLON]" using tokne col d by (metis append_butlast_last_id)
  have nosp: "SPACE \<notin> set tok" unfolding tok_def nonspace_def by (rule takeWhile_notin_set)
  have "hd rest = SPACE"
    using rest dropWhile_hd[of SPACE s] unfolding rest_def nonspace_def by blast
  with rest have "rest = SPACE # tl rest"
    by (cases rest) auto
  moreover have "s = tok @ rest" unfolding tok_def rest_def by simp
  ultimately have s: "s = d @ '': '' @ tl rest" using tok by simp
  from match_reason_Some[OF mr] have r: "r \<noteq> []" "LF \<notin> set r" "tl rest = r \<or> tl rest = r @ [LF]"
    by auto
  have "d \<noteq> []" using len tok by auto
  moreover have "SPACE \<notin> set d" using nosp tok by auto
  moreover have "\<exists>tail. (tail = [] \<or> tail = [LF]) \<and> s = d @ '': '' @ r @ tail"
    using s r(3) by auto
  ultimately show ?thesis using r by blast
qed

lemma match_object_reason_intro:
  assumes "d \<noteq> []" "SPACE \<notin> set d" "match_reason rest = Some r"
  shows "match_object_reason (d @ '': '' @ rest) = Some (d, r)"
proof -
  have nosp: "SPACE \<notin> set (d @ [COLON])" using assms(2) by simp
  have eq: "d @ '': '' @ rest = (d @ [COLON]) @ SPACE # rest" by simp
  have t: "takeWhile nonspace (d @ '': '' @ rest) = d @ [COLON]"
    unfolding eq nonspace_def by (rule takeWhile_notin[OF nosp])
  have dr: "dropWhile nonspace (d @ '': '' @ rest) = SPACE # rest"
    unfolding eq nonspace_def by (rule dropWhile_notin[OF nosp])
  have "2 \<le> length (d @ [COLON])" using assms(1) by (cases d) auto
  then show ?thesis
    unfolding match_object_reason_def Let_def t dr using assms(3) by simp
qed

lemma match_object_reason_no_colon:
  assumes "SPACE \<notin> set t" "t = [] \<or> last t \<noteq> COLON"
  shows "match_object_reason (t @ SPACE # rest) = None"
proof -
  have "takeWhile nonspace (t @ SPACE # rest) = t"
    unfolding nonspace_def by (rule takeWhile_notin[OF assms(1)])
  then show ?thesis using assms(2) by (auto simp: match_object_reason_def Let_def)
qed

lemma scan_action_sound:
  "scan_action act s = Some (a, d, r) \<Longrightarrow>
   \<exists>mid tail. a = act @ mid \<and> s = mid @ SPACE # d @ '': '' @ r @ tail \<and>
     (tail = [] \<or> tail = [LF]) \<and> d \<noteq> [] \<and> SPACE \<notin> set d \<and> r \<noteq> [] \<and> LF \<notin> set r"
proof (induction act s rule: scan_action.induct)
  case (1 act)
  then show ?case by simp
next
  case (2 act c s)
  from "2.prems" have c: "c = SPACE" by (auto split: if_splits)
  show ?case
  proof (cases "match_object_reason s")
    case (Some p)
    obtain d' r' where p: "p = (d', r')" by (cases p)
    with Some "2.prems" c have "a = act" "d' = d" "r' = r" by auto
    with match_object_reason_Some[of s d r] Some p
    obtain tail where "tail = [] \<or> tail = [LF]" "s = d @ '': '' @ r @ tail"
      "d \<noteq> []" "SPACE \<notin> set d" "r \<noteq> []" "LF \<notin> set r"
      by auto
    then have "a = act @ [] \<and> c # s = [] @ SPACE # d @ '': '' @ r @ tail \<and>
     (tail = [] \<or> tail = [LF]) \<and> d \<noteq> [] \<and> SPACE \<notin> set d \<and> r \<noteq> [] \<and> LF \<notin> set r"
      using c \<open>a = act\<close> by simp
    then show ?thesis by blast
  next
    case None
    define tok where "tok = takeWhile nonspace s"
    from None "2.prems" c have tokne: "tok \<noteq> []"
      and rec: "scan_action (act @ SPACE # tok) (dropWhile nonspace s) = Some (a, d, r)"
      by (auto simp: tok_def split: if_splits)
    from "2.IH"[OF _ None _ rec[unfolded tok_def]] c tokne
    obtain mid tail where m: "a = (act @ SPACE # tok) @ mid"
      "dropWhile nonspace s = mid @ SPACE # d @ '': '' @ r @ tail"
      "tail = [] \<or> tail = [LF]" "d \<noteq> []" "SPACE \<notin> set d" "r \<noteq> []" "LF \<notin> set r"
      by (auto simp: tok_def)
    have "s = tok @ dropWhile nonspace s" by (simp add: tok_def)
    then have "c # s = (SPACE # tok @ mid) @ SPACE # d @ '': '' @ r @ tail"
      using m(2) c by simp
    moreover have "a = act @ (SPACE # tok @ mid)" using m(1) by simp
    ultimately show ?thesis using m(3-7) by blast
  qed
qed

lemma scan_action_complete:
  assumes "\<forall>t\<in>set ts. t \<noteq> [] \<and> SPACE \<notin> set t \<and> last t \<noteq> COLON"
    and "match_object_reason s = Some (d, r)"
  shows "scan_action act (concat (map ((#) SPACE) ts) @ SPACE # s)
         = Some (act @ concat (map ((#) SPACE) ts), d, r)"
  using assms(1)
proof (induction ts arbitrary: act)
  case Nil
  then show ?case using assms(2) by simp
next
  case (Cons t ts)
  then have t: "t \<noteq> []" "SPACE \<notin> set t" "last t \<noteq> COLON" by auto
  define rest where "rest = concat (map ((#) SPACE) ts) @ SPACE # s"
  have rest: "\<exists>u. rest = SPACE # u" by (cases ts) (auto simp: rest_def)
  then obtain u where u: "rest = SPACE # u" by blast
  have none: "match_object_reason (t @ rest) = None"
    unfolding u using t by (intro match_object_reason_no_colon) auto
  have tw: "takeWhile nonspace (t @ rest) = t"
    unfolding u nonspace_def by (rule takeWhile_notin[OF t(2)])
  have dw: "dropWhile nonspace (t @ rest) = rest"
    unfolding u nonspace_def by (rule dropWhile_notin[OF t(2)])
  have "scan_action act (SPACE # t @ rest) = scan_action (act @ SPACE # t) rest"
    using none tw dw t(1) by simp
  also have "\<dots> = Some ((act @ SPACE # t) @ concat (map ((#) SPACE) ts), d, r)"
    unfolding rest_def using Cons by auto
  finally show ?case by (simp add: rest_def)
qed

lemma join_space: "join '' '' (t # ts) = t @ concat (map ((#) SPACE) ts)"
  by (induction ts arbitrary: t) auto

lemma find_strerror: "find (\<lambda>error. strerror k = strerror error) known_errors = Some k"
  by (cases k) (simp_all add: known_errors_def)

lemma find_strerror_Some:
  "find (\<lambda>error. reason = strerror error) known_errors = Some k \<Longrightarrow> reason = strerror k"
  by (auto simp: known_errors_def split: if_splits)

lemma strerror_nonempty: "strerror k \<noteq> []" and strerror_no_lf: "LF \<notin> set (strerror k)"
  by (cases k; simp)+

lemma re_search_message:
  assumes "acts \<noteq> []" "\<forall>t\<in>set acts. t \<noteq> [] \<and> SPACE \<notin> set t" "\<forall>t\<in>set (tl acts). last t \<noteq> COLON"
    and "obj \<noteq> []" "SPACE \<notin> set obj"
    and "reason \<noteq> []" "LF \<notin> set reason" "tail = [] \<or> tail = [LF]"
  shows "re_search (''cannot '' @ join '' '' acts @ '' '' @ obj @ '': '' @ reason @ tail)
         = Some (join '' '' acts, obj, reason)"
proof -
  obtain t ts where acts: "acts = t # ts" using assms(1) by (cases acts) auto
  have t: "t \<noteq> []" "SPACE \<notin> set t" using assms(2) acts by auto
  have ts: "\<forall>t\<in>set ts. t \<noteq> [] \<and> SPACE \<notin> set t \<and> last t \<noteq> COLON"
    using assms(2,3) acts by auto
  define s where "s = obj @ '': '' @ reason @ tail"
  define rest where "rest = concat (map ((#) SPACE) ts) @ SPACE # s"
  have mo: "match_object_reason s = Some (obj, reason)"
    unfolding s_def using assms(4-8) by (intro match_object_reason_intro match_reason_intro)
  obtain u where u: "rest = SPACE # u" by (cases ts) (auto simp: rest_def)
  have eq: "''cannot '' @ join '' '' acts @ '' '' @ obj @ '': '' @ reason @ tail
        = ''cannot '' @ t @ rest"
    by (simp add: acts join_space rest_def s_def)
  have tw: "takeWhile nonspace (t @ rest) = t"
    unfolding u nonspace_def by (rule takeWhile_notin[OF t(2)])
  have dw: "dropWhile nonspace (t @ rest) = rest"
    unfolding u nonspace_def by (rule dropWhile_notin[OF t(2)])
  have "re_search (''cannot '' @ t @ rest) = scan_action t rest"
    using tw dw t(1) by (simp add: re_search_def)
  also have "\<dots> = Some (t @ concat (map ((#) SPACE) ts), obj, reason)"
    unfolding rest_def by (rule scan_action_complete[OF ts mo])
  finally show ?thesis unfolding eq by (simp add: acts join_space)
qed

lemma re_search_Some:
  assumes "re_search text = Some (a, d, r)"
  shows "\<exists>tail. text = ''cannot '' @ a @ '' '' @ d @ '': '' @ r @ tail \<and> (tail = [] \<or> tail = [LF])
     \<and> a \<noteq> [] \<and> d \<noteq> [] \<and> SPACE \<notin> set d \<and> r \<noteq> [] \<and> LF \<notin> set r"
proof -
  define s where "s = drop 7 text"
  define tok where "tok = takeWhile nonspace s"
  from assms have pre: "take 7 text = ''cannot ''" and tokne: "tok \<noteq> []"
    and sc: "scan_action tok (dropWhile nonspace s) = Some (a, d, r)"
    by (auto simp: re_search_def s_def tok_def split: if_splits)
  from scan_action_sound[OF sc] obtain mid tail where m: "a = tok @ mid"
    "dropWhile nonspace s = mid @ SPACE # d @ '': '' @ r @ tail"
    "tail = [] \<or> tail = [LF]" "d \<noteq> []" "SPACE \<notin> set d" "r \<noteq> []" "LF \<notin> set r"
    by blast
  have "text = take 7 text @ s" by (simp add: s_def)
  moreover have "s = tok @ dropWhile nonspace s" by (simp add: tok_def)
  ultimately have "text = ''cannot '' @ a @ '' '' @ d @ '': '' @ r @ tail"
    using pre m(1,2) by (metis append.assoc append_Cons append_Nil)
  then show ?thesis using m tokne by auto
qed

lemma classify_message:
  assumes "acts \<noteq> []" "\<forall>t\<in>set acts. t \<noteq> [] \<and> SPACE \<notin> set t"
    and "\<forall>t\<in>set (tl acts). last t \<noteq> COLON"
    and "obj \<noteq> []" "SPACE \<notin> set obj" "tail = [] \<or> tail = [LF]"
  shows "classify 1 (''cannot '' @ join '' '' acts @ '' '' @ obj @ '': '' @ strerror error @ tail)
         = Some (ZFSError error (unquote obj))"
proof -
  have "re_search (''cannot '' @ join '' '' acts @ '' '' @ obj @ '': '' @ strerror error @ tail)
        = Some (join '' '' acts, obj, strerror error)"
    using assms strerror_nonempty strerror_no_lf by (intro re_search_message)
  moreover obtain c cs where "obj = c # cs" using assms(4) by (cases obj) auto
  ultimately show ?thesis by (simp add: classify_def find_strerror)
qed

lemma classify_Some:
  assumes "classify rc text = Some e"
  shows "rc = 1 \<and> (\<exists>action obj error tail.
           text = ''cannot '' @ action @ '' '' @ obj @ '': '' @ strerror error @ tail \<and>
           (tail = [] \<or> tail = [LF]) \<and> action \<noteq> [] \<and> obj \<noteq> [] \<and> SPACE \<notin> set obj \<and>
           e = ZFSError error (unquote obj))"
proof -
  from assms have rc: "rc = 1" by (auto simp: classify_def split: if_splits)
  from assms rc obtain a d r where rs: "re_search text = Some (a, d, r)"
    by (auto simp: classify_def split: option.splits)
  from re_search_Some[OF rs] obtain tail where t:
    "text = ''cannot '' @ a @ '' '' @ d @ '': '' @ r @ tail" "tail = [] \<or> tail = [LF]"
    "a \<noteq> []" "d \<noteq> []" "SPACE \<notin> set d"
    by blast
  from t(4) obtain c cs where d: "d = c # cs" by (cases d) auto
  from assms rc rs d obtain error where
    f: "find (\<lambda>error. r = strerror error) known_errors = Some error"
    and e: "e = ZFSError error (unquote d)"
    by (auto simp: classify_def split: option.splits)
  from find_strerror_Some[OF f] have "r = strerror error" .
  with t e rc show ?thesis by blast
qed

lemma classify_unmatched: "re_search text = None \<Longrightarrow> classify rc text = None"
  by (simp add: classify_def)

lemma classify_unrecognized:
  assumes "re_search text = Some (action, dataset, reason)" "\<forall>error. reason \<noteq> strerror error"
  shows "classify rc text = None"
proof (cases "classify rc text")
  case None
  then show ?thesis .
next
  case (Some e)
  then obtain error where "find (\<lambda>error. reason = strerror error) known_errors = Some error"
    using assms(1) re_search_Some[OF assms(1)]
    by (auto simp: classify_def split: if_splits option.splits list.splits)
  from find_strerror_Some[OF this] assms(2) show ?thesis by blast
qed

lemmas classify_eval =
  classify_def re_search_def match_object_reason_def match_reason_def nonspace_def notnl_def
  known_errors_def unquote_def

section \<open>Properties of the decoder\<close>

lemma split_tab_nonempty: "split_tab s \<noteq> []"
  by (induction s) (auto split: list.splits)

lemma split_tab_no_tab: "TAB \<notin> set f \<Longrightarrow> split_tab f = [f]"
  by (induction f) auto

lemma split_tab_append: "TAB \<notin> set f \<Longrightarrow> split_tab (f @ TAB # rest) = f # split_tab rest"
  by (induction f) auto

lemma split_tab_join:
  "fs \<noteq> [] \<Longrightarrow> \<forall>f\<in>set fs. TAB \<notin> set f \<Longrightarrow> split_tab (join [TAB] fs) = fs"
proof (induction "[TAB]" fs rule: join.induct)
  case 1
  then show ?case by simp
next
  case (2 x)
  then show ?case by (simp add: split_tab_no_tab)
next
  case (3 x y ys)
  then show ?case by (simp add: split_tab_append)
qed

lemma splitlines_single:
  assumes "l \<noteq> []" "\<forall>c\<in>set l. \<not> is_linebreak c"
  shows "splitlines l = [l]"
proof -
  obtain c cs where l: "l = c # cs" using assms(1) by (cases l) auto
  have tw: "takeWhile (\<lambda>x. \<not> is_linebreak x) (c # cs) = c # cs"
    and dw: "dropWhile (\<lambda>x. \<not> is_linebreak x) (c # cs) = []"
    using assms(2) unfolding l by auto
  show ?thesis unfolding l splitlines.simps(2) tw dw by simp
qed

lemma is_linebreak_LF: "is_linebreak LF"
  by (simp add: is_linebreak_def)

lemma skip_linebreak_LF: "skip_linebreak (LF # rest) = rest"
  by (cases rest) auto

lemma splitlines_append:
  assumes "\<forall>c\<in>set l. \<not> is_linebreak c"
  shows "splitlines (l @ LF # rest) = l # splitlines rest"
proof -
  obtain c cs where l: "l @ LF # rest = c # cs" by (cases l) auto
  have tw: "takeWhile (\<lambda>x. \<not> is_linebreak x) (l @ LF # rest) = l"
    using assms is_linebreak_LF by (induction l) auto
  have dw: "dropWhile (\<lambda>x. \<not> is_linebreak x) (l @ LF # rest) = LF # rest"
    using assms is_linebreak_LF by (induction l) auto
  have "splitlines (c # cs) = takeWhile (\<lambda>x. \<not> is_linebreak x) (c # cs)
       # splitlines (skip_linebreak (dropWhile (\<lambda>x. \<not> is_linebreak x) (c # cs)))"
    by (rule splitlines.simps(2))
  then show ?thesis unfolding l[symmetric] tw dw skip_linebreak_LF .
qed

lemma splitlines_join:
  "\<forall>l\<in>set ls. \<forall>c\<in>set l. \<not> is_linebreak c \<Longrightarrow> ls = [] \<or> last ls \<noteq> [] \<Longrightarrow>
   splitlines (join [LF] ls) = ls"
proof (induction "[LF]" ls rule: join.induct)
  case 1
  then show ?case by simp
next
  case (2 x)
  then show ?case by (simp add: splitlines_single)
next
  case (3 x y ys)
  then show ?case by (simp add: splitlines_append)
qed

lemma not_linebreak_TAB: "\<not> is_linebreak TAB"
  by (simp add: is_linebreak_def)

lemma join_tab_no_linebreak:
  "\<forall>f\<in>set r. \<forall>c\<in>set f. \<not> is_linebreak c \<Longrightarrow> \<forall>c\<in>set (join [TAB] r). \<not> is_linebreak c"
  by (induction "[TAB]" r rule: join.induct) (auto simp: not_linebreak_TAB)

lemma join_tab_empty: "r \<noteq> [] \<Longrightarrow> join [TAB] r = [] \<longleftrightarrow> r = [[]]"
  by (induction "[TAB]" r rule: join.induct) auto

section \<open>Properties of the runner\<close>

lemma run_unchecked:
  "\<not> truthy check \<Longrightarrow>
   run popen ssh timeout check cmd rest kwargs = run popen ssh timeout (PBool False) cmd rest kwargs"
  by (cases ssh)
     (auto simp: run_def run_local_def run_remote_def split: sum.splits comm.splits prod.splits)









section \<open>Further properties of the classifier, the entry point and the runner\<close>

lemma classify_of_search:
  assumes "re_search text = Some (action, dataset, strerror error)"
  shows "classify 1 text = Some (ZFSError error (unquote dataset))"
proof -
  from re_search_Some[OF assms] have "dataset \<noteq> []" by blast
  then obtain c cs where "dataset = c # cs" by (cases dataset) auto
  with assms show ?thesis by (simp add: classify_def find_strerror)
qed

lemma splitlines_empty_iff: "splitlines text = [] \<longleftrightarrow> text = []"
  by (cases "text") simp_all

lemma normalize_input_absent:
  assumes "''universal_newlines'' \<notin> dom kwargs" "kwargs ''input'' = Some PNone"
  shows "normalize_input kwargs = kwargs(''input'' \<mapsto> PBytes [])"
  using assms by (auto simp: normalize_input_def get_def split: option.splits)

lemma normalize_input_other_key:
  "key \<noteq> ''input'' \<Longrightarrow> normalize_input kwargs key = kwargs key"
  by (simp add: normalize_input_def)

lemma dom_normalize_input: "dom (normalize_input kwargs) = dom kwargs"
  by (auto simp: normalize_input_def split: if_splits)

lemma check_arg_normalize_input: "check_arg (normalize_input kwargs) = check_arg kwargs"
  by (simp add: check_arg_def get_def normalize_input_other_key)

lemma run_local_communicate_None:
  "Communicate input t \<in> set (fst (run_local popen timeout check cmd rest kwargs))
   \<Longrightarrow> input = None"
  by (auto simp: run_local_def split: sum.splits comm.splits)



lemma chunks_hello: "chunks chunk_size ''hello'' = [''hello'']"
  by (subst chunks.simps, subst chunks.simps) (simp add: chunk_size_def)

lemmas run_eval =
  run_def run_local_def run_remote_def check_output_def normalize_input_def run_kwargs_def
  check_arg_def get_def bind_eff_def any_popen_def std_popen_def busy_child_def cat_child_def
  echo_ssh_def echo_remote_def PIPE_def check_returncode_def super_check_returncode_def
  decode_def copyfileobj_def chunks_hello

section \<open>The error classifier\<close>

text \<open>
  C3, as amended. For every error text \<open>cannot <action> <object>: <reason>\<close> whose action
  is one or more tokens joined by single spaces, none of them after the first ending in
  a colon, whose object is a token, and whose reason is the \<open>strerror\<close> of one of the
  five classes, classification with exit code 1 raises that class with the object, its
  surrounding single quotes stripped. The text
  \<open>cannot destroy 'tank/data': dataset is busy\<close> raises \<open>DatasetBusyError\<close> with
  \<open>tank/data\<close>. A text the pattern does not match, and a text whose matched reason is
  none of the five, raise nothing.
\<close>

theorem classify_known_message:
  "(acts \<noteq> [] \<and> (\<forall>t\<in>set acts. t \<noteq> [] \<and> SPACE \<notin> set t) \<and> (\<forall>t\<in>set (tl acts). last t \<noteq> COLON)
      \<and> obj \<noteq> [] \<and> SPACE \<notin> set obj
    \<longrightarrow> classify 1 (''cannot '' @ join '' '' acts @ '' '' @ obj @ '': '' @ strerror error)
          = Some (ZFSError error (unquote obj)))
   \<and> classify 1 ''cannot destroy 'tank/data': dataset is busy''
       = Some (ZFSError DatasetBusyError ''tank/data'')
   \<and> (re_search text = None \<longrightarrow> classify 1 text = None)
   \<and> (re_search text' = Some (action, dataset, reason) \<and> (\<forall>e. reason \<noteq> strerror e)
      \<longrightarrow> classify 1 text' = None)"
proof (intro conjI impI)
  assume "acts \<noteq> [] \<and> (\<forall>t\<in>set acts. t \<noteq> [] \<and> SPACE \<notin> set t) \<and> (\<forall>t\<in>set (tl acts). last t \<noteq> COLON)
      \<and> obj \<noteq> [] \<and> SPACE \<notin> set obj"
  then show "classify 1 (''cannot '' @ join '' '' acts @ '' '' @ obj @ '': '' @ strerror error)
          = Some (ZFSError error (unquote obj))"
    using classify_message[of acts obj "[]" error] by simp
next
  show "classify 1 ''cannot destroy 'tank/data': dataset is busy''
       = Some (ZFSError DatasetBusyError ''tank/data'')"
    by (simp add: classify_eval)
next
  assume "re_search text = None"
  then show "classify 1 text = None" by (rule classify_unmatched)
next
  assume "re_search text' = Some (action, dataset, reason) \<and> (\<forall>e. reason \<noteq> strerror e)"
  then show "classify 1 text' = None" using classify_unrecognized by blast
qed

text \<open>The theorem at an unquoted object, at a text with no match, and at an unknown reason.\<close>

theorem classify_known_message_witness:
  "classify 1 ''cannot open tank/missing: dataset does not exist''
     = Some (ZFSError DatasetNotFoundError ''tank/missing'')
   \<and> re_search ''permission denied'' = None
   \<and> classify 1 ''permission denied'' = None
   \<and> re_search ''cannot open tank/a: permission denied''
       = Some (''open'', ''tank/a'', ''permission denied'')
   \<and> classify 1 ''cannot open tank/a: permission denied'' = None"
  using classify_known_message [of "[''open'']" "''tank/missing''" DatasetNotFoundError
      "''permission denied''" "''cannot open tank/a: permission denied''"
      "''open''" "''tank/a''" "''permission denied''"]
  by (simp add: classify_eval)

text \<open>
  The claim without the condition on the action fails: the lazy first group stops at the
  first token that ends in a colon, so the reason it finds here is
  \<open>destination tank/data: dataset is busy\<close>, which is none of the five.
\<close>

theorem classify_colon_in_action_counterexample:
  "''cannot receive stream: destination tank/data: dataset is busy''
     = ''cannot '' @ join '' '' [''receive'', ''stream:'', ''destination''] @ '' '' @ ''tank/data''
         @ '': '' @ strerror DatasetBusyError
   \<and> classify 1 ''cannot receive stream: destination tank/data: dataset is busy'' = None"
  by (simp add: classify_eval)

text \<open>
  C4, as amended. With exit code 1 the pattern is matched at the very start of the error
  text only, and the reason it finds must end the text, with at most one line feed
  after it. A text that does not begin with \<open>cannot \<close> raises nothing, whatever message
  it holds later. Whenever a class is raised, the text is \<open>cannot \<close>, an action that is
  not empty, one space, an object that is not empty and has no space, \<open>: \<close>, the
  \<open>strerror\<close> of that class and at most one final line feed, and the error carries that
  object unquoted. A text that is one message \<open>cannot <action> <object>: <reason>\<close> with
  the \<open>strerror\<close> of a class as its reason (action tokens not empty and without spaces,
  none after the first ending in a colon; object not empty and without spaces), with or
  without one final line feed, raises that class. Only spaces delimit tokens, so the
  action may span lines: two busy messages on two lines raise \<open>DatasetBusyError\<close> with
  the object of the second, \<open>tank/b\<close>, and a busy message followed by a line of other
  output raises nothing.
\<close>

theorem classify_anchored:
  "(take 7 text \<noteq> ''cannot '' \<longrightarrow> classify 1 text = None)
   \<and> (classify 1 text' = Some e \<longrightarrow>
        (\<exists>action obj error tail.
           text' = ''cannot '' @ action @ '' '' @ obj @ '': '' @ strerror error @ tail \<and>
           (tail = [] \<or> tail = [LF]) \<and> action \<noteq> [] \<and> obj \<noteq> [] \<and> SPACE \<notin> set obj \<and>
           e = ZFSError error (unquote obj)))
   \<and> (acts \<noteq> [] \<and> (\<forall>t\<in>set acts. t \<noteq> [] \<and> SPACE \<notin> set t) \<and> (\<forall>t\<in>set (tl acts). last t \<noteq> COLON)
        \<and> obj \<noteq> [] \<and> SPACE \<notin> set obj \<and> (tail = [] \<or> tail = [LF])
      \<longrightarrow> classify 1 (''cannot '' @ join '' '' acts @ '' '' @ obj @ '': '' @ strerror error @ tail)
            = Some (ZFSError error (unquote obj)))
   \<and> classify 1 (''cannot open tank/a: dataset is busy'' @ [LF]
                  @ ''cannot open tank/b: dataset is busy'')
       = Some (ZFSError DatasetBusyError ''tank/b'')
   \<and> classify 1 (''cannot open tank/a: dataset is busy'' @ [LF] @ ''no further output'')
       = None"
proof (intro conjI impI)
  assume "take 7 text \<noteq> ''cannot ''"
  then show "classify 1 text = None" by (simp add: classify_def re_search_def)
next
  assume "classify 1 text' = Some e"
  from classify_Some[OF this]
  show "\<exists>action obj error tail.
           text' = ''cannot '' @ action @ '' '' @ obj @ '': '' @ strerror error @ tail \<and>
           (tail = [] \<or> tail = [LF]) \<and> action \<noteq> [] \<and> obj \<noteq> [] \<and> SPACE \<notin> set obj \<and>
           e = ZFSError error (unquote obj)"
    by blast
next
  assume "acts \<noteq> [] \<and> (\<forall>t\<in>set acts. t \<noteq> [] \<and> SPACE \<notin> set t) \<and> (\<forall>t\<in>set (tl acts). last t \<noteq> COLON)
        \<and> obj \<noteq> [] \<and> SPACE \<notin> set obj \<and> (tail = [] \<or> tail = [LF])"
  then show "classify 1 (''cannot '' @ join '' '' acts @ '' '' @ obj @ '': '' @ strerror error @ tail)
            = Some (ZFSError error (unquote obj))"
    by (intro classify_message) auto
next
  show "classify 1 (''cannot open tank/a: dataset is busy'' @ [LF]
                  @ ''cannot open tank/b: dataset is busy'')
       = Some (ZFSError DatasetBusyError ''tank/b'')"
    by (simp add: classify_eval)
next
  show "classify 1 (''cannot open tank/a: dataset is busy'' @ [LF] @ ''no further output'')
       = None"
    by (simp add: classify_eval)
qed

text \<open>The theorem at a message that follows other words, and at a message with its line feed.\<close>

theorem classify_anchored_witness:
  "take 7 ''warning: cannot open tank/a: dataset is busy'' \<noteq> ''cannot ''
   \<and> classify 1 ''warning: cannot open tank/a: dataset is busy'' = None
   \<and> classify 1 (''cannot hold snapshot tank/a@s: tag already exists on this dataset'' @ [LF])
       = Some (ZFSError HoldTagExistsError ''tank/a@s'')
   \<and> (\<exists>action obj error tail.
         ''cannot hold snapshot tank/a@s: tag already exists on this dataset'' @ [LF]
           = ''cannot '' @ action @ '' '' @ obj @ '': '' @ strerror error @ tail \<and>
         (tail = [] \<or> tail = [LF]) \<and> action \<noteq> [] \<and> obj \<noteq> [] \<and> SPACE \<notin> set obj \<and>
         ZFSError HoldTagExistsError ''tank/a@s'' = ZFSError error (unquote obj))"
proof -
  let ?t = "''warning: cannot open tank/a: dataset is busy''"
  let ?m = "''cannot hold snapshot tank/a@s: tag already exists on this dataset'' @ [LF]"
  note w = classify_anchored [of ?t ?m "ZFSError HoldTagExistsError ''tank/a@s''"
      "[''hold'', ''snapshot'']" "''tank/a@s''" "[LF]" HoldTagExistsError]
  have 1: "take 7 ?t \<noteq> ''cannot ''" by simp
  have 2: "classify 1 ?m = Some (ZFSError HoldTagExistsError ''tank/a@s'')"
    using w by (simp add: unquote_def)
  from w 1 2 show ?thesis by blast
qed

text \<open>
  The claim as it was: a text that holds a message after other output is not
  classified, though the message alone is.
\<close>

theorem classify_later_line_counterexample:
  "classify 1 ''cannot open tank/missing: dataset does not exist''
     = Some (ZFSError DatasetNotFoundError ''tank/missing'')
   \<and> classify 1 (''warning: pool is degraded'' @ [LF]
                  @ ''cannot open tank/missing: dataset does not exist'') = None"
  by (simp add: classify_eval)

text \<open>
  C5. For every exit code other than 1 and every error text, classification raises none
  of the five classes, and \<open>check_returncode\<close> is the method of the superclass.
\<close>

theorem classify_other_exit_code:
  "rc \<noteq> 1 \<Longrightarrow>
   classify rc err = None \<and>
   check_returncode \<lparr>args = cmd, returncode = rc, stdout = out, stderr = Some err\<rparr>
     = super_check_returncode \<lparr>args = cmd, returncode = rc, stdout = out, stderr = Some err\<rparr>"
  by (simp add: classify_def check_returncode_def)

text \<open>The theorem at exit code 2, on a text that exit code 1 classifies.\<close>

theorem classify_other_exit_code_witness:
  "(2::int) \<noteq> 1 \<and>
   classify 1 ''cannot destroy 'tank/data': dataset is busy''
     = Some (ZFSError DatasetBusyError ''tank/data'') \<and>
   classify 2 ''cannot destroy 'tank/data': dataset is busy'' = None \<and>
   check_returncode \<lparr>args = CmdStr ''zfs destroy tank/data'', returncode = 2, stdout = Some [],
                     stderr = Some ''cannot destroy 'tank/data': dataset is busy''\<rparr>
     = Inl (CalledProcessError 2 (CmdStr ''zfs destroy tank/data'') (Some [])
             (Some ''cannot destroy 'tank/data': dataset is busy''))"
  using classify_other_exit_code [of 2 "''cannot destroy 'tank/data': dataset is busy''"
      "CmdStr ''zfs destroy tank/data''" "Some []"]
  by (simp add: classify_eval super_check_returncode_def)

text \<open>
  C9. Whenever the object that the pattern extracts is the single character \<open>'\<close> and the
  reason is the \<open>strerror\<close> of a class, the test of line 50 holds and the raised error
  carries the empty string: for every text with those groups, and so for every message
  \<open>cannot <action> ': <reason>\<close> (action as in C3). More generally, whenever the
  extracted object, which has length at least 1, begins and ends with \<open>'\<close>, the raised
  error carries the object without its first and last character.
\<close>

theorem classify_strips_quotes:
  "(re_search text = Some (action, [QUOTE], strerror error)
      \<longrightarrow> classify 1 text = Some (ZFSError error []))
   \<and> (re_search text' = Some (action', tok, strerror error') \<and> hd tok = QUOTE \<and> last tok = QUOTE
      \<longrightarrow> 1 \<le> length tok \<and> classify 1 text' = Some (ZFSError error' (butlast (tl tok))))
   \<and> (acts \<noteq> [] \<and> (\<forall>t\<in>set acts. t \<noteq> [] \<and> SPACE \<notin> set t) \<and> (\<forall>t\<in>set (tl acts). last t \<noteq> COLON)
      \<longrightarrow> classify 1 (''cannot '' @ join '' '' acts @ '' '' @ [QUOTE] @ '': '' @ strerror error'')
            = Some (ZFSError error'' []))
   \<and> (acts' \<noteq> [] \<and> (\<forall>t\<in>set acts'. t \<noteq> [] \<and> SPACE \<notin> set t) \<and> (\<forall>t\<in>set (tl acts'). last t \<noteq> COLON)
        \<and> SPACE \<notin> set name
      \<longrightarrow> classify 1 (''cannot '' @ join '' '' acts' @ '' '' @ (QUOTE # name @ [QUOTE]) @ '': ''
                        @ strerror error''')
            = Some (ZFSError error''' name))"
proof (intro conjI impI)
  assume "re_search text = Some (action, [QUOTE], strerror error)"
  from classify_of_search[OF this] show "classify 1 text = Some (ZFSError error [])"
    by (simp add: unquote_def)
next
  assume a: "re_search text' = Some (action', tok, strerror error') \<and> hd tok = QUOTE \<and> last tok = QUOTE"
  then have rs: "re_search text' = Some (action', tok, strerror error')" by blast
  from re_search_Some[OF rs] have "tok \<noteq> []" by blast
  then show "1 \<le> length tok" by (cases tok) auto
  from classify_of_search[OF rs] a
  show "classify 1 text' = Some (ZFSError error' (butlast (tl tok)))"
    by (simp add: unquote_def)
next
  assume "acts \<noteq> [] \<and> (\<forall>t\<in>set acts. t \<noteq> [] \<and> SPACE \<notin> set t) \<and> (\<forall>t\<in>set (tl acts). last t \<noteq> COLON)"
  then have "classify 1 (''cannot '' @ join '' '' acts @ '' '' @ [QUOTE] @ '': ''
                          @ strerror error'' @ [])
             = Some (ZFSError error'' (unquote [QUOTE]))"
    by (intro classify_message) auto
  then show "classify 1 (''cannot '' @ join '' '' acts @ '' '' @ [QUOTE] @ '': '' @ strerror error'')
            = Some (ZFSError error'' [])"
    by (simp add: unquote_def)
next
  assume "acts' \<noteq> [] \<and> (\<forall>t\<in>set acts'. t \<noteq> [] \<and> SPACE \<notin> set t) \<and> (\<forall>t\<in>set (tl acts'). last t \<noteq> COLON)
        \<and> SPACE \<notin> set name"
  then have "classify 1 (''cannot '' @ join '' '' acts' @ '' '' @ (QUOTE # name @ [QUOTE]) @ '': ''
                          @ strerror error''' @ [])
             = Some (ZFSError error''' (unquote (QUOTE # name @ [QUOTE])))"
    by (intro classify_message) auto
  then show "classify 1 (''cannot '' @ join '' '' acts' @ '' '' @ (QUOTE # name @ [QUOTE]) @ '': ''
                        @ strerror error''')
            = Some (ZFSError error''' name)"
    by (simp add: unquote_def butlast_append)
qed

text \<open>
  The theorem at the text \<open>cannot open ': dataset is busy\<close>, whose object is the lone
  quote, and at \<open>cannot destroy 'tank/data': dataset is busy\<close>.
\<close>

theorem classify_strips_quotes_witness:
  "re_search ''cannot open ': dataset is busy'' = Some (''open'', [QUOTE], ''dataset is busy'')
   \<and> classify 1 ''cannot open ': dataset is busy'' = Some (ZFSError DatasetBusyError [])
   \<and> re_search ''cannot destroy 'tank/data': dataset is busy''
       = Some (''destroy'', QUOTE # ''tank/data'' @ [QUOTE], ''dataset is busy'')
   \<and> classify 1 ''cannot destroy 'tank/data': dataset is busy''
       = Some (ZFSError DatasetBusyError ''tank/data'')
   \<and> classify 1 (''cannot '' @ join '' '' [''release'', ''hold''] @ '' '' @ [QUOTE] @ '': ''
                  @ strerror HoldTagNotFoundError)
       = Some (ZFSError HoldTagNotFoundError [])"
proof -
  let ?t = "''cannot open ': dataset is busy''"
  let ?t' = "''cannot destroy 'tank/data': dataset is busy''"
  note w = classify_strips_quotes [of ?t "''open''" DatasetBusyError ?t' "''destroy''"
      "QUOTE # ''tank/data'' @ [QUOTE]" DatasetBusyError "[''release'', ''hold'']"
      HoldTagNotFoundError "[''destroy'']" "''tank/data''" DatasetBusyError]
  have 1: "re_search ?t = Some (''open'', [QUOTE], ''dataset is busy'')"
    by (simp add: classify_eval)
  have 2: "re_search ?t' = Some (''destroy'', QUOTE # ''tank/data'' @ [QUOTE], ''dataset is busy'')"
    by (simp add: classify_eval)
  from w 1 2 show ?thesis by simp
qed

section \<open>The output decoder\<close>

text \<open>
  C7. The decoder gives the empty sequence of records on the empty text, and \<open>None\<close> on
  \<open>None\<close>; the two results differ. It gives \<open>None\<close> on \<open>None\<close> only, and the empty
  sequence on the empty text only.
\<close>

theorem decode_empty_is_not_absent:
  "decode (Some []) = Some [] \<and> decode None = None \<and> decode (Some []) \<noteq> decode None
   \<and> (decode out = None) = (out = None)
   \<and> (decode (Some text) = Some []) = (text = [])"
  by (cases out) (simp_all add: decode_def splitlines_empty_iff)

text \<open>The theorem at a text of two lines, which decodes to two records.\<close>

theorem decode_empty_is_not_absent_witness:
  "decode (Some (''a'' @ [TAB] @ ''b'' @ [LF] @ ''c'' @ [TAB] @ ''d'' @ [LF]))
     = Some [[''a'', ''b''], [''c'', ''d'']]
   \<and> decode (Some (''a'' @ [TAB] @ ''b'' @ [LF] @ ''c'' @ [TAB] @ ''d'' @ [LF])) \<noteq> Some []
   \<and> decode (Some (''a'' @ [TAB] @ ''b'' @ [LF] @ ''c'' @ [TAB] @ ''d'' @ [LF])) \<noteq> None"
  using decode_empty_is_not_absent
    [of "Some (''a'' @ [TAB] @ ''b'' @ [LF] @ ''c'' @ [TAB] @ ''d'' @ [LF])"
        "''a'' @ [TAB] @ ''b'' @ [LF] @ ''c'' @ [TAB] @ ''d'' @ [LF]"]
  by (simp add: decode_def is_linebreak_def)

text \<open>
  C8, as amended. For every sequence of records in which every record has at least one
  field, no field holds a tab or a line boundary (line feed, carriage return, vertical
  tab, form feed, file, group or record separator, next line; the two further
  boundaries of Unicode, U+2028 and U+2029, are no characters of the model), and the
  last record is not one empty field alone: joining the fields with tabs and the
  records with line feeds, and decoding that text, gives the same sequence of records
  again, empty fields included.
\<close>

theorem decode_encode_records:
  assumes fields: "\<forall>r\<in>set records. r \<noteq> [] \<and> (\<forall>f\<in>set r. \<forall>c\<in>set f. c \<noteq> TAB \<and> \<not> is_linebreak c)"
    and lastrec: "records = [] \<or> last records \<noteq> [[]]"
  shows "decode (Some (encode_records records)) = Some records"
proof -
  let ?ls = "map (join [TAB]) records"
  have nb: "\<forall>l\<in>set ?ls. \<forall>c\<in>set l. \<not> is_linebreak c"
    using fields join_tab_no_linebreak by fastforce
  have lst: "?ls = [] \<or> last ?ls \<noteq> []"
  proof (cases "records = []")
    case True
    then show ?thesis by simp
  next
    case False
    then have "last records \<in> set records" by simp
    with fields have "last records \<noteq> []" by blast
    with lastrec False have "join [TAB] (last records) \<noteq> []"
      by (simp add: join_tab_empty)
    with False show ?thesis by (simp add: last_map)
  qed
  have sl: "splitlines (join [LF] ?ls) = ?ls" by (rule splitlines_join[OF nb lst])
  have "map split_tab ?ls = records"
  proof -
    have "\<forall>r\<in>set records. split_tab (join [TAB] r) = r"
      using fields by (auto intro!: split_tab_join)
    then show ?thesis by (simp add: map_idI)
  qed
  then show ?thesis by (simp add: decode_def encode_records_def sl)
qed

text \<open>The theorem at two records of three fields, with empty fields in the middle and at the end.\<close>

theorem decode_encode_records_witness:
  "last [[''tank'', [], ''1.5G''], [''tank/data'', ''-'', []]] \<noteq> [[]]
   \<and> encode_records [[''tank'', [], ''1.5G''], [''tank/data'', ''-'', []]]
       = ''tank'' @ [TAB, TAB] @ ''1.5G'' @ [LF] @ ''tank/data'' @ [TAB] @ ''-'' @ [TAB]
   \<and> decode (Some (encode_records [[''tank'', [], ''1.5G''], [''tank/data'', ''-'', []]]))
       = Some [[''tank'', [], ''1.5G''], [''tank/data'', ''-'', []]]"
proof -
  let ?rs = "[[''tank'', [], ''1.5G''], [''tank/data'', ''-'', []]]"
  have 1: "\<forall>r\<in>set ?rs. r \<noteq> [] \<and> (\<forall>f\<in>set r. \<forall>c\<in>set f. c \<noteq> TAB \<and> \<not> is_linebreak c)"
    by (simp add: is_linebreak_def)
  have 2: "?rs = [] \<or> last ?rs \<noteq> [[]]" by simp
  have 3: "encode_records ?rs
       = ''tank'' @ [TAB, TAB] @ ''1.5G'' @ [LF] @ ''tank/data'' @ [TAB] @ ''-'' @ [TAB]"
    by (simp add: encode_records_def)
  from decode_encode_records [OF 1 2] 3 show ?thesis by simp
qed

text \<open>
  The claim as it was fails in each of the ways the amendment names: a last record of one
  empty field is lost, a tab inside a field cuts the field in two, and a record of no
  field comes back as nothing.
\<close>

theorem decode_encode_records_counterexample:
  "decode (Some (encode_records [[''a''], [[]]])) = Some [[''a'']]
   \<and> decode (Some (encode_records [[''a''], [[]]])) \<noteq> Some [[''a''], [[]]]
   \<and> decode (Some (encode_records [[''a'' @ [TAB] @ ''b'']])) = Some [[''a'', ''b'']]
   \<and> decode (Some (encode_records [[''a'' @ [TAB] @ ''b'']])) \<noteq> Some [[''a'' @ [TAB] @ ''b'']]
   \<and> decode (Some (encode_records [[]])) = Some []
   \<and> decode (Some (encode_records [[]])) \<noteq> Some [[]]"
  by (simp add: decode_def encode_records_def is_linebreak_def)

section \<open>The entry point and the runner\<close>

text \<open>
  C1, at the call \<open>check_output(['cat'], input=None)\<close>. Line 77 chooses the kind of the
  empty payload by a keyword that lines 71 and 72 have just refused, so the payload is
  always the empty bytes; the call of line 79 asks for text all the same. The
  constructor is called with \<open>input=b''\<close> and \<open>universal_newlines=True\<close>; the standard
  constructor refuses the keyword \<open>input\<close>.
\<close>

theorem check_output_absent_input_is_binary:
  "normalize_input [''input'' \<mapsto> PNone] = [''input'' \<mapsto> PBytes []]
   \<and> run_kwargs (normalize_input [''input'' \<mapsto> PNone]) ''universal_newlines'' = Some (PBool True)
   \<and> fst (check_output (any_popen cat_child) None None (CmdList [''cat'']) [] [''input'' \<mapsto> PNone])
       = [Popen (CmdList [''cat'']) []
            [''input'' \<mapsto> PBytes [], ''stdout'' \<mapsto> PIPE, ''stderr'' \<mapsto> PIPE,
             ''universal_newlines'' \<mapsto> PBool True],
          Communicate None None, Poll]
   \<and> snd (check_output (std_popen cat_child) None None (CmdList [''cat'']) [] [''input'' \<mapsto> PNone])
       = Inl (TypeError (''Popen.__init__() got an unexpected keyword argument ''
                          @ [QUOTE] @ ''input'' @ [QUOTE]))"
  by (simp add: run_eval)

text \<open>
  C2, at the call \<open>run(['cat'], input=b'hello')\<close>. The payload is no parameter of \<open>run\<close>:
  it goes to the constructor with the other keywords, which the standard constructor
  refuses; and with a constructor that takes it, \<open>communicate\<close> is still called with no
  input, so that \<open>cat\<close> copies nothing.
\<close>

theorem run_local_input_not_written:
  "run (std_popen cat_child) None None (PBool False) (CmdList [''cat'']) []
       [''input'' \<mapsto> PBytes ''hello'']
     = ([Popen (CmdList [''cat'']) [] [''input'' \<mapsto> PBytes ''hello'']],
        Inl (TypeError (''Popen.__init__() got an unexpected keyword argument ''
                         @ [QUOTE] @ ''input'' @ [QUOTE])))
   \<and> run (any_popen cat_child) None None (PBool False) (CmdList [''cat'']) []
       [''input'' \<mapsto> PBytes ''hello'']
     = ([Popen (CmdList [''cat'']) [] [''input'' \<mapsto> PBytes ''hello''],
         Communicate None None, Poll],
        Inr \<lparr>args = CmdList [''cat''], returncode = 0, stdout = Some [], stderr = Some []\<rparr>)"
  by (simp add: run_eval)

text \<open>
  C6, as amended. For every call of \<open>check_output\<close> that passes none of the keywords
  \<open>stdout\<close>, \<open>universal_newlines\<close> and \<open>stderr\<close> and no true \<open>check\<close>, and in which the
  runner, called without checking, returns a completed process with its error stream
  captured as text: the classifier is applied to the exit code and the error text
  first, and what it raises is raised; otherwise a non-zero exit code raises
  \<open>CalledProcessError\<close> with the exit code, the command and both captured streams;
  otherwise the decoded output is returned. So the decoder's result is returned when
  the exit code is 0, and only then. The events of the call are those of the runner.
\<close>

theorem check_output_classifies_first:
  assumes "''stdout'' \<notin> dom kwargs" "''universal_newlines'' \<notin> dom kwargs"
    and "''stderr'' \<notin> dom kwargs"
    and "\<not> truthy (check_arg kwargs)"
    and "run popen ssh timeout (PBool False) cmd rest (run_kwargs (normalize_input kwargs))
           = (tr, Inr ret)"
    and "stderr ret = Some err"
  shows "check_output popen ssh timeout cmd rest kwargs =
           (tr, case classify (returncode ret) err of
                  Some e \<Rightarrow> Inl e
                | None \<Rightarrow>
                    if returncode ret \<noteq> 0
                    then Inl (CalledProcessError (returncode ret) (args ret) (stdout ret)
                               (stderr ret))
                    else Inr (decode (stdout ret)))
         \<and> ((\<exists>records. snd (check_output popen ssh timeout cmd rest kwargs) = Inr records)
              = (returncode ret = 0))"
proof -
  have r: "run popen ssh timeout (check_arg (normalize_input kwargs)) cmd rest
             (run_kwargs (normalize_input kwargs)) = (tr, Inr ret)"
    unfolding check_arg_normalize_input run_unchecked [OF assms(4)] by (rule assms(5))
  have c: "check_returncode ret =
             (case classify (returncode ret) err of
                Some e \<Rightarrow> Inl e
              | None \<Rightarrow> super_check_returncode ret)"
    using assms(6) by (simp add: check_returncode_def classify_def)
  have 1: "check_output popen ssh timeout cmd rest kwargs =
           (tr, case classify (returncode ret) err of
                  Some e \<Rightarrow> Inl e
                | None \<Rightarrow>
                    if returncode ret \<noteq> 0
                    then Inl (CalledProcessError (returncode ret) (args ret) (stdout ret)
                               (stderr ret))
                    else Inr (decode (stdout ret)))"
    using assms(1-3)
    by (simp add: check_output_def dom_normalize_input r bind_eff_def c
        super_check_returncode_def split: option.splits)
  have 2: "(\<exists>records. snd (check_output popen ssh timeout cmd rest kwargs) = Inr records)
              = (returncode ret = 0)"
  proof (cases "returncode ret = 0")
    case True
    then have "classify (returncode ret) err = None" by (simp add: classify_def)
    with True 1 show ?thesis by simp
  next
    case False
    with 1 show ?thesis by (simp split: option.splits)
  qed
  from 1 2 show ?thesis by blast
qed

text \<open>
  The theorem at \<open>zfs destroy tank/data\<close> on a busy dataset, with no keyword: the child
  exits with 1 and \<open>DatasetBusyError\<close> is raised.
\<close>

theorem check_output_classifies_first_witness:
  "check_output (any_popen busy_child) None None (CmdList [''zfs'', ''destroy'', ''tank/data''])
       [] Map.empty
     = ([Popen (CmdList [''zfs'', ''destroy'', ''tank/data'']) []
           [''stdout'' \<mapsto> PIPE, ''stderr'' \<mapsto> PIPE, ''universal_newlines'' \<mapsto> PBool True],
         Communicate None None, Poll],
        Inl (ZFSError DatasetBusyError ''tank/data''))"
proof -
  let ?cmd = "CmdList [''zfs'', ''destroy'', ''tank/data'']"
  let ?err = "''cannot destroy 'tank/data': dataset is busy'' @ [LF]"
  let ?tr = "[Popen ?cmd [] [''stdout'' \<mapsto> PIPE, ''stderr'' \<mapsto> PIPE,
                              ''universal_newlines'' \<mapsto> PBool True],
              Communicate None None, Poll]"
  let ?ret = "\<lparr>args = ?cmd, returncode = 1, stdout = Some [], stderr = Some ?err\<rparr>"
  have 1: "''stdout'' \<notin> dom (Map.empty :: kwargs)"
    and 2: "''universal_newlines'' \<notin> dom (Map.empty :: kwargs)"
    and 3: "''stderr'' \<notin> dom (Map.empty :: kwargs)"
    and 4: "\<not> truthy (check_arg Map.empty)"
    by (simp_all add: check_arg_def get_def)
  have 5: "run (any_popen busy_child) None None (PBool False) ?cmd []
             (run_kwargs (normalize_input Map.empty)) = (?tr, Inr ?ret)"
    by (simp add: run_eval)
  have 6: "stderr ?ret = Some ?err" by simp
  have 7: "classify 1 ?err = Some (ZFSError DatasetBusyError ''tank/data'')"
    by (simp add: classify_eval)
  show ?thesis
    using check_output_classifies_first [OF 1 2 3 4 5 6] 7 by simp
qed

text \<open>
  The claim as it was fails at the same command with \<open>check=True\<close>: the keyword reaches
  the runner, which raises \<open>CalledProcessError\<close> for the exit code 1 before
  \<open>check_returncode\<close> is called, on an error text that the classifier knows.
\<close>

theorem check_output_check_True_counterexample:
  "classify 1 (''cannot destroy 'tank/data': dataset is busy'' @ [LF])
     = Some (ZFSError DatasetBusyError ''tank/data'')
   \<and> snd (check_output (any_popen busy_child) None None
            (CmdList [''zfs'', ''destroy'', ''tank/data'']) [] [''check'' \<mapsto> PBool True])
     = Inl (CalledProcessError 1 (CmdList [''zfs'', ''destroy'', ''tank/data'']) (Some [])
             (Some (''cannot destroy 'tank/data': dataset is busy'' @ [LF])))"
  by (simp add: run_eval classify_eval)




end
